theory Spec2Isabelle
  imports Complex_Main
begin

section \<open>Strings of the page\<close>

text \<open>
  A JavaScript string is modelled as a \<^typ>\<open>string\<close>: a list of characters whose codes
  are the code units 0..255 (Latin-1). \<open>length\<close> is \<^verbatim>\<open>.length\<close>, \<open>take n\<close> is
  \<^verbatim>\<open>.substring(0, n)\<close>. The scores are JavaScript numbers that only ever hold
  integers here, so they are \<^typ>\<open>int\<close>.
\<close>

definition isWhiteSpace :: "char \<Rightarrow> bool" where
  \<comment> \<open>the class \<^verbatim>\<open>\s\<close>, which is also what \<^verbatim>\<open>trim()\<close> strips: TAB, LF, VT, FF, CR, SP, NBSP\<close>
  "isWhiteSpace c = (of_char c \<in> {9, 10, 11, 12, 13, 32, 160 :: nat})"

definition isDigit :: "char \<Rightarrow> bool" where
  \<comment> \<open>the class \<^verbatim>\<open>\d\<close>\<close>
  "isDigit c = (48 \<le> (of_char c :: nat) \<and> (of_char c :: nat) \<le> 57)"

definition isUpperAZ :: "char \<Rightarrow> bool" where
  \<comment> \<open>the class \<^verbatim>\<open>[A-Z]\<close>\<close>
  "isUpperAZ c = (65 \<le> (of_char c :: nat) \<and> (of_char c :: nat) \<le> 90)"

definition isLineTerminator :: "char \<Rightarrow> bool" where
  \<comment> \<open>what \<^verbatim>\<open>.\<close> refuses to match: LF and CR (U+2028 and U+2029 are not code units below 256)\<close>
  "isLineTerminator c = (of_char c \<in> {10, 13 :: nat})"

definition hasUpper :: "char \<Rightarrow> bool" where
  \<comment> \<open>the characters with a distinct lower-case form: A-Z and the Latin-1 capitals
      U+00C0..U+00DE without the multiplication sign U+00D7\<close>
  "hasUpper c = (let n = of_char c :: nat in
     (65 \<le> n \<and> n \<le> 90) \<or> (192 \<le> n \<and> n \<le> 222 \<and> n \<noteq> 215))"

definition hasLower :: "char \<Rightarrow> bool" where
  \<comment> \<open>the characters whose upper-case form is again one code unit below 256: a-z and
      U+00E0..U+00FE without the division sign U+00F7\<close>
  "hasLower c = (let n = of_char c :: nat in
     (97 \<le> n \<and> n \<le> 122) \<or> (224 \<le> n \<and> n \<le> 254 \<and> n \<noteq> 247))"

definition toLowerChar :: "char \<Rightarrow> char" where
  \<comment> \<open>code + 32, which for the capitals is setting bit 5\<close>
  "toLowerChar c = (if hasUpper c
     then (case c of Char b0 b1 b2 b3 b4 b5 b6 b7 \<Rightarrow> Char b0 b1 b2 b3 b4 True b6 b7)
     else c)"

definition canonicalize :: "char \<Rightarrow> char" where
  \<comment> \<open>the case folding of a regular expression with the flag \<^verbatim>\<open>i\<close> (no flag \<^verbatim>\<open>u\<close>):
      the upper-case form, which is code - 32. The micro sign and the y with diaeresis fold
      to code units above 255 that nothing else here folds to, so they stand for their
      own class.\<close>
  "canonicalize c = (if hasLower c
     then (case c of Char b0 b1 b2 b3 b4 b5 b6 b7 \<Rightarrow> Char b0 b1 b2 b3 b4 False b6 b7)
     else c)"

definition toLowerCase :: "string \<Rightarrow> string" where
  "toLowerCase s = map toLowerChar s"

fun startsWith :: "string \<Rightarrow> string \<Rightarrow> bool" where
  "startsWith s [] = True"
| "startsWith [] (p # ps) = False"
| "startsWith (c # cs) (p # ps) = (c = p \<and> startsWith cs ps)"

fun includes_str :: "string \<Rightarrow> string \<Rightarrow> bool" where
  "includes_str [] p = (p = [])"
| "includes_str (c # cs) p = (startsWith (c # cs) p \<or> includes_str cs p)"

fun join :: "string \<Rightarrow> string list \<Rightarrow> string" where
  "join sep [] = []"
| "join sep [x] = x"
| "join sep (x # y # ys) = x @ sep @ join sep (y # ys)"

definition trim :: "string \<Rightarrow> string" where
  "trim s = rev (dropWhile isWhiteSpace (rev (dropWhile isWhiteSpace s)))"

function replaceWs :: "string \<Rightarrow> string \<Rightarrow> string" where
  \<comment> \<open>\<^verbatim>\<open>s.replace(/\s+/g, r)\<close>: every maximal run of white space becomes \<open>r\<close>\<close>
  "replaceWs r [] = []"
| "replaceWs r (c # cs) =
     (if isWhiteSpace c then r @ replaceWs r (dropWhile isWhiteSpace cs)
      else c # replaceWs r cs)"
  by pat_completeness auto
termination
  by (relation "measure (\<lambda>(r, s). length s)") (auto simp: less_Suc_eq_le length_dropWhile_le)

definition normalize :: "string \<Rightarrow> string" where
  \<comment> \<open>\<^verbatim>\<open>rawText.replace(/\s+/g, ' ').trim()\<close>\<close>
  "normalize s = trim (replaceWs '' '' s)"

section \<open>Regular expressions of the scoring\<close>

text \<open>
  A matcher takes the rest of the text at a position and returns the length of the match
  that starts there, if there is one. Every pattern of the program matches at least one
  character. In \<^verbatim>\<open>\d+\.\s+[A-Z]\<close> and \<^verbatim>\<open>section\s+\d+\<close> the greedy runs are
  followed by a character outside the run's class, so giving back characters of a run never
  turns a failure into a match, and the longest run is the only one to try.
\<close>

fun startsWithCI :: "string \<Rightarrow> string \<Rightarrow> bool" where
  "startsWithCI s [] = True"
| "startsWithCI [] (p # ps) = False"
| "startsWithCI (c # cs) (p # ps) = (canonicalize c = canonicalize p \<and> startsWithCI cs ps)"

fun matchAlts :: "string list \<Rightarrow> string \<Rightarrow> nat option" where
  \<comment> \<open>\<^verbatim>\<open>/p1|p2|.../i\<close> for literal alternatives: the first alternative that matches\<close>
  "matchAlts [] s = None"
| "matchAlts (p # ps) s = (if startsWithCI s p then Some (length p) else matchAlts ps s)"

definition numberedSection :: "string \<Rightarrow> nat option" where
  \<comment> \<open>\<^verbatim>\<open>/\d+\.\s+[A-Z]/\<close>\<close>
  "numberedSection s =
     (let ds = takeWhile isDigit s; r1 = dropWhile isDigit s in
      if ds = [] then None
      else (case r1 of
              [] \<Rightarrow> None
            | d # r2 \<Rightarrow>
                if d \<noteq> CHR ''.'' then None
                else (let ws = takeWhile isWhiteSpace r2; r3 = dropWhile isWhiteSpace r2 in
                      if ws = [] then None
                      else (case r3 of
                              [] \<Rightarrow> None
                            | u # r4 \<Rightarrow>
                                if isUpperAZ u then Some (length ds + 1 + length ws + 1)
                                else None))))"

definition keywordNumber :: "string \<Rightarrow> string \<Rightarrow> nat option" where
  \<comment> \<open>\<^verbatim>\<open>/kw\s+\d+/i\<close>\<close>
  "keywordNumber kw s =
     (if startsWithCI s kw
      then (let r1 = drop (length kw) s;
                ws = takeWhile isWhiteSpace r1; r2 = dropWhile isWhiteSpace r1;
                ds = takeWhile isDigit r2 in
            if ws = [] \<or> ds = [] then None
            else Some (length kw + length ws + length ds))
      else None)"

fun countFrom :: "(string \<Rightarrow> nat option) \<Rightarrow> nat \<Rightarrow> string \<Rightarrow> nat" where
  \<comment> \<open>the scan of a regular expression with the flag \<^verbatim>\<open>g\<close>; \<open>k\<close> characters of the last
      match are still to be skipped\<close>
  "countFrom m k [] = 0"
| "countFrom m k (c # cs) =
     (if 0 < k then countFrom m (k - 1) cs
      else (case m (c # cs) of
              Some n \<Rightarrow> 1 + countFrom m (n - 1) cs
            | None \<Rightarrow> countFrom m 0 cs))"

definition matchCount :: "(string \<Rightarrow> nat option) \<Rightarrow> string \<Rightarrow> nat" where
  \<comment> \<open>the length of \<^verbatim>\<open>s.match(regex)\<close>, 0 when it is \<^verbatim>\<open>null\<close>\<close>
  "matchCount m s = countFrom m 0 s"

section \<open>The document\<close>

record element =
  innerText :: string
  textContent :: string

record document =
  location_href :: string
  document_title :: string
  headingTexts :: "string list"  \<comment> \<open>\<^verbatim>\<open>textContent\<close> of the h1..h6 elements, in document order\<close>
  querySelector :: "string \<Rightarrow> element option"
  body :: element

fun findContainer :: "(string \<Rightarrow> element option) \<Rightarrow> (element \<Rightarrow> bool) \<Rightarrow> string list \<Rightarrow>
    element option \<Rightarrow> element option" where
  \<comment> \<open>the selector loop of popup.js and content.js: the variable is assigned on every
      iteration, and the loop stops at the first element that passes the test\<close>
  "findContainer q ok [] cur = cur"
| "findContainer q ok (sel # sels) cur =
     (case q sel of
        None \<Rightarrow> findContainer q ok sels None
      | Some e \<Rightarrow> if ok e then Some e else findContainer q ok sels (Some e))"

definition elementText :: "element \<Rightarrow> string" where
  \<comment> \<open>\<^verbatim>\<open>el.innerText || el.textContent || ''\<close>\<close>
  "elementText e = (if innerText e \<noteq> [] then innerText e else textContent e)"

section \<open>popup.js: detectAndExtractTC\<close>

definition tcIndicators :: "string list" where
  "tcIndicators =
     [''terms of service'', ''terms of use'', ''terms and conditions'',
      ''user agreement'', ''privacy policy'', ''legal'', ''eula'',
      ''end user license agreement'', ''service agreement'',
      ''acceptable use policy'', ''community guidelines'',
      ''data policy'', ''cookie policy'', ''disclaimer'']"

definition variations :: "string \<Rightarrow> string list" where
  "variations indicator =
     [replaceWs ''-'' indicator, replaceWs [] indicator, replaceWs ''_'' indicator]"

definition indicatorUrlScore :: "string \<Rightarrow> string \<Rightarrow> int" where
  \<comment> \<open>what one indicator adds to \<^verbatim>\<open>urlScore\<close>\<close>
  "indicatorUrlScore u indicator =
     (\<Sum>variation \<leftarrow> variations indicator. if includes_str u variation then 20 else 0)"

definition urlScore :: "document \<Rightarrow> int" where
  "urlScore d =
     (\<Sum>indicator \<leftarrow> tcIndicators. indicatorUrlScore (toLowerCase (location_href d)) indicator)"

definition titleScore :: "document \<Rightarrow> int" where
  "titleScore d =
     (\<Sum>indicator \<leftarrow> tcIndicators.
        if includes_str (toLowerCase (document_title d)) indicator then 25 else 0)"

definition headingsJoined :: "document \<Rightarrow> string" where
  "headingsJoined d = join '' '' (map toLowerCase (headingTexts d))"

definition headingScore :: "document \<Rightarrow> int" where
  "headingScore d =
     (\<Sum>indicator \<leftarrow> tcIndicators. if includes_str (headingsJoined d) indicator then 15 else 0)"

definition contentSelectors :: "string list" where
  "contentSelectors =
     [''main'', ''[role=\"main\"]'', ''.content'', ''.main-content'',
      ''.terms'', ''.legal-content'', ''.policy-content'', ''.terms-content'',
      ''article'', ''.article-content'', ''.document-content'',
      ''.policy'', ''.agreement'', ''.legal'']"

definition contentElement :: "document \<Rightarrow> element" where
  "contentElement d =
     (case findContainer (querySelector d) (\<lambda>e. 500 < length (trim (innerText e)))
             contentSelectors None of
        None \<Rightarrow> body d
      | Some e \<Rightarrow> e)"

definition mainContent :: "document \<Rightarrow> string" where
  "mainContent d = normalize (elementText (contentElement d))"

definition legalPatterns :: "string list" where
  "legalPatterns =
     [''hereby agree'', ''terms of service'', ''user agreement'',
      ''privacy policy'', ''data collection'', ''intellectual property'',
      ''limitation of liability'', ''governing law'', ''dispute resolution'',
      ''termination'', ''prohibited uses'', ''account suspension'',
      ''we collect'', ''personal information'', ''third party'',
      ''cookies'', ''tracking'', ''analytics'', ''marketing'',
      ''license'', ''copyright'', ''trademark'', ''warranty'',
      ''indemnify'', ''binding arbitration'', ''class action'']"

definition structurePatterns :: "(string \<Rightarrow> nat option) list" where
  "structurePatterns =
     [numberedSection, keywordNumber ''section'', keywordNumber ''article'',
      keywordNumber ''clause'']"

definition contentScoreOf :: "string \<Rightarrow> int" where
  "contentScoreOf txt =
     (\<Sum>pattern \<leftarrow> legalPatterns. int (matchCount (matchAlts [pattern]) txt) * 3) +
     (\<Sum>pattern \<leftarrow> structurePatterns. int (matchCount pattern txt) * 2)"

definition contentScore :: "document \<Rightarrow> int" where
  "contentScore d = contentScoreOf (mainContent d)"

definition totalScore :: "document \<Rightarrow> int" where
  "totalScore d = min 100 (urlScore d + titleScore d + headingScore d + min (contentScore d) 50)"

record detection =
  isTC :: bool
  confidence :: int
  text_tc :: string
  url :: string
  title :: string

definition detectAndExtractTC :: "document \<Rightarrow> detection" where
  "detectAndExtractTC d =
     \<lparr> isTC = (25 \<le> totalScore d),
       confidence = totalScore d,
       text_tc = take 10000 (mainContent d),
       url = location_href d,
       title = document_title d \<rparr>"

section \<open>content.js: extractTCContent and analyzeTCContent\<close>

definition contentSelectorsCS :: "string list" where
  "contentSelectorsCS =
     [''main'', ''[role=\"main\"]'', ''.terms-content'', ''.legal-content'',
      ''.privacy-content'', ''.policy-content'', ''.agreement-content'',
      ''article'', ''.content'', ''.main-content'', ''#content'', ''#main-content'']"

definition contentContainer :: "document \<Rightarrow> element" where
  "contentContainer d =
     (case findContainer (querySelector d) (\<lambda>e. 500 < length (innerText e))
             contentSelectorsCS None of
        None \<Rightarrow> body d
      | Some e \<Rightarrow> e)"

definition leadKeywords :: "string list" where
  "leadKeywords = [''terms'', ''privacy'', ''legal'', ''agreement'', ''policy'']"

fun lazyFind :: "string list \<Rightarrow> string \<Rightarrow> (nat \<times> nat) option" where
  \<comment> \<open>\<^verbatim>\<open>/^.*?(k1|k2|...)/i\<close> tried at index 0: the lazy \<^verbatim>\<open>.*?\<close> takes 0, 1, 2, ...
      characters, none of them a line terminator, until an alternative matches; the result
      is the number of characters it took and the length of the group\<close>
  "lazyFind kws [] = (case matchAlts kws [] of Some n \<Rightarrow> Some (0, n) | None \<Rightarrow> None)"
| "lazyFind kws (c # cs) =
     (case matchAlts kws (c # cs) of
        Some n \<Rightarrow> Some (0, n)
      | None \<Rightarrow>
          if isLineTerminator c then None
          else (case lazyFind kws cs of Some (k, n) \<Rightarrow> Some (Suc k, n) | None \<Rightarrow> None))"

definition stripLead :: "string \<Rightarrow> string" where
  \<comment> \<open>\<^verbatim>\<open>content.replace(/^.*?(terms|privacy|legal|agreement|policy)/i, '$1')\<close>: the match is
      replaced by its group, and the text after the match follows\<close>
  "stripLead s =
     (case lazyFind leadKeywords s of
        None \<Rightarrow> s
      | Some (k, n) \<Rightarrow> take n (drop k s) @ drop (k + n) s)"

definition extractTCContent :: "document \<Rightarrow> string" where
  "extractTCContent d = stripLead (normalize (elementText (contentContainer d)))"

definition indicators :: "(string list \<times> int) list" where
  \<comment> \<open>each pattern as the list of its alternatives, with its weight\<close>
  "indicators =
     [([''terms of service'', ''terms of use''], 15),
      ([''user agreement'', ''service agreement''], 15),
      ([''privacy policy'', ''data collection''], 10),
      ([''hereby agree'', ''you agree''], 10),
      ([''intellectual property''], 8),
      ([''limitation of liability''], 8),
      ([''termination'', ''suspend'', ''suspension''], 7),
      ([''governing law'', ''jurisdiction''], 7),
      ([''dispute resolution'', ''arbitration''], 7),
      ([''prohibited uses'', ''restrictions''], 6),
      ([''account'', ''registration''], 5),
      ([''payment'', ''billing'', ''fees''], 5),
      ([''cookies'', ''tracking''], 4),
      ([''third party'', ''third-party''], 3)]"

definition scoreOf :: "string \<Rightarrow> int" where
  "scoreOf txt = (\<Sum>(alts, weight) \<leftarrow> indicators. int (matchCount (matchAlts alts) txt) * weight)"

text \<open>
  \<^verbatim>\<open>Math.round((score / maxPossibleScore) * 100)\<close> is computed on IEEE 754 doubles: the
  quotient and the product are each rounded to the nearest double, ties to the even
  significand. The scores are far inside the normal range, so a double is a multiple of
  \<open>2 ^ (e - 52)\<close> where \<open>2 ^ e\<close> is the largest power of two not above the value.
\<close>

fun bitLength :: "nat \<Rightarrow> nat" where
  "bitLength n = (if n = 0 then 0 else Suc (bitLength (n div 2)))"

definition ilog2 :: "rat \<Rightarrow> int" where
  \<comment> \<open>the \<open>e\<close> with \<open>2 ^ e \<le> q < 2 ^ (e + 1)\<close>, for \<open>0 < q\<close>\<close>
  "ilog2 q = (if 1 \<le> q then int (bitLength (nat \<lfloor>q\<rfloor>)) - 1
              else - int (bitLength (nat (\<lceil>1 / q\<rceil> - 1))))"

definition pow2 :: "int \<Rightarrow> rat" where
  "pow2 e = (if 0 \<le> e then 2 ^ nat e else 1 / 2 ^ nat (- e))"

definition roundEven :: "rat \<Rightarrow> int" where
  "roundEven m = (let f = \<lfloor>m\<rfloor>; r = m - of_int f in
     if r < 1 / 2 \<or> (r = 1 / 2 \<and> even f) then f else f + 1)"

definition nearestDouble :: "rat \<Rightarrow> rat" where
  \<comment> \<open>for \<open>0 < q\<close>\<close>
  "nearestDouble q = (let ulp = pow2 (ilog2 q - 52) in of_int (roundEven (q / ulp)) * ulp)"

definition toDouble :: "rat \<Rightarrow> rat" where
  "toDouble q = (if q = 0 then 0
     else if 0 < q then nearestDouble q
     else - nearestDouble (- q))"

definition mathRound :: "rat \<Rightarrow> int" where
  \<comment> \<open>\<^verbatim>\<open>Math.round\<close>: the nearest integer, a tie going up\<close>
  "mathRound x = \<lfloor>x + 1 / 2\<rfloor>"

definition confidenceOf :: "int \<Rightarrow> int" where
  "confidenceOf score = min 100 (mathRound (toDouble (toDouble (of_int score / 200) * 100)))"

function splitWs :: "string \<Rightarrow> string \<Rightarrow> string list" where
  \<comment> \<open>\<^verbatim>\<open>s.split(/\s+/)\<close>, with the piece read so far: a run of white space ends a piece,
      also an empty one at the start, and the end of the text ends the last piece, also
      an empty one\<close>
  "splitWs cur [] = [cur]"
| "splitWs cur (c # cs) =
     (if isWhiteSpace c then cur # splitWs [] (dropWhile isWhiteSpace cs)
      else splitWs (cur @ [c]) cs)"
  by pat_completeness auto
termination
  by (relation "measure (\<lambda>(cur, s). length s)") (auto simp: less_Suc_eq_le length_dropWhile_le)

record analysis =
  isTC_cs :: bool
  confidence_cs :: int
  content :: string
  wordCount :: nat
  keyIndicators :: nat

definition analyzeTCContent :: "document \<Rightarrow> analysis" where
  "analyzeTCContent d =
     (let c = extractTCContent d; conf = confidenceOf (scoreOf c) in
      \<lparr> isTC_cs = (30 \<le> conf),
        confidence_cs = conf,
        content = take 10000 c,
        wordCount = length (splitWs [] c),
        keyIndicators =
          length (filter (\<lambda>(alts, weight). 0 < matchCount (matchAlts alts) c) indicators) \<rparr>)"

section \<open>background.js: extractTextContent\<close>

definition selectors :: "string list" where
  "selectors =
     [''main'', ''article'', ''.terms-content'', ''.policy-content'', ''.privacy-content'',
      ''#terms'', ''#privacy-policy'', ''.legal-content'',
      ''[class*=\"terms\"]'', ''[class*=\"privacy\"]'', ''[class*=\"policy\"]'']"

fun firstLong :: "(string \<Rightarrow> element option) \<Rightarrow> string list \<Rightarrow> string" where
  \<comment> \<open>the selector loop of background.js: \<^verbatim>\<open>content\<close> stays \<^verbatim>\<open>''\<close> unless an
      element passes the test\<close>
  "firstLong q [] = []"
| "firstLong q (sel # sels) =
     (case q sel of
        None \<Rightarrow> firstLong q sels
      | Some e \<Rightarrow> if 500 < length (trim (innerText e)) then innerText e else firstLong q sels)"

definition extractTextContent :: "document \<Rightarrow> string" where
  "extractTextContent d =
     (let c0 = firstLong (querySelector d) selectors;
          c1 = (if c0 = [] \<or> length (trim c0) < 500
                then (if 500 < length (trim (innerText (body d))) then innerText (body d) else c0)
                else c0)
      in take 50000 (trim c1))"

section \<open>The summary cache: background.js and popup.js\<close>

text \<open>
  \<^verbatim>\<open>chrome.storage.local\<close> is a map from keys to stored objects. The background script
  stores \<^verbatim>\<open>{ summary, timestamp, url }\<close>; the popup stores the analysis object itself,
  which has no \<^verbatim>\<open>timestamp\<close> and no \<^verbatim>\<open>url\<close>. Times are milliseconds, as
  \<^verbatim>\<open>Date.now()\<close> gives them.
\<close>

record cacheData =
  summary :: string
  timestamp :: "int option"
  cached_url :: "string option"

type_synonym storage = "string \<Rightarrow> cacheData option"

definition base64Alphabet :: string where
  "base64Alphabet = ''ABCDEFGHIJKLMNOPQRSTUVWXYZabcdefghijklmnopqrstuvwxyz0123456789+/''"

definition b64 :: "nat \<Rightarrow> char" where
  "b64 i = base64Alphabet ! (i mod 64)"

fun btoa :: "string \<Rightarrow> string" where
  "btoa [] = []"
| "btoa [a] =
     (let x = of_char a :: nat in
      [b64 (x div 4), b64 ((x mod 4) * 16), CHR ''='', CHR ''=''])"
| "btoa [a, b] =
     (let x = of_char a :: nat; y = of_char b :: nat in
      [b64 (x div 4), b64 ((x mod 4) * 16 + y div 16), b64 ((y mod 16) * 4), CHR ''=''])"
| "btoa (a # b # c # rest) =
     (let x = of_char a :: nat; y = of_char b :: nat; z = of_char c :: nat in
      [b64 (x div 4), b64 ((x mod 4) * 16 + y div 16), b64 ((y mod 16) * 4 + z div 64),
       b64 (z mod 64)] @ btoa rest)"

definition hexDigit :: "nat \<Rightarrow> char" where
  "hexDigit i = ''0123456789ABCDEF'' ! (i mod 16)"

definition percent :: "nat \<Rightarrow> string" where
  "percent n = [CHR ''%'', hexDigit (n div 16), hexDigit (n mod 16)]"

definition isUnreserved :: "char \<Rightarrow> bool" where
  "isUnreserved c = (let n = of_char c :: nat in
     (48 \<le> n \<and> n \<le> 57) \<or> (65 \<le> n \<and> n \<le> 90) \<or> (97 \<le> n \<and> n \<le> 122) \<or>
     c \<in> set (CHR 0x27 # ''-_.!~*()''))"

definition encodeURIComponent :: "string \<Rightarrow> string" where
  \<comment> \<open>the UTF-8 bytes of every character outside the unreserved set, each as \<^verbatim>\<open>%XX\<close>\<close>
  "encodeURIComponent s =
     concat (map (\<lambda>c. let n = of_char c :: nat in
                        if isUnreserved c then [c]
                        else if n < 128 then percent n
                        else percent (192 + n div 64) @ percent (128 + n mod 64)) s)"

definition cacheKey :: "string \<Rightarrow> string" where
  \<comment> \<open>popup.js: \<^verbatim>\<open>`summary_${btoa(tab.url).slice(0, 50)}`\<close>\<close>
  "cacheKey tabUrl = ''summary_'' @ take 50 (btoa tabUrl)"

definition cacheKeyBG :: "string \<Rightarrow> string" where
  \<comment> \<open>background.js: \<^verbatim>\<open>`summary_${btoa(encodeURIComponent(url)).slice(0, 50)}`\<close>\<close>
  "cacheKeyBG u = ''summary_'' @ take 50 (btoa (encodeURIComponent u))"

definition cacheSummary :: "int \<Rightarrow> string \<Rightarrow> string \<Rightarrow> storage \<Rightarrow> storage" where
  "cacheSummary now u s st =
     st(cacheKeyBG u \<mapsto> \<lparr> summary = s, timestamp = Some now, cached_url = Some u \<rparr>)"

definition getCachedSummary :: "int \<Rightarrow> string \<Rightarrow> storage \<Rightarrow> string option" where
  \<comment> \<open>what \<^verbatim>\<open>sendResponse\<close> receives, \<open>None\<close> for \<^verbatim>\<open>null\<close>; without a timestamp the
      difference is \<^verbatim>\<open>NaN\<close> and the comparison is false\<close>
  "getCachedSummary now u st =
     (case st (cacheKeyBG u) of
        None \<Rightarrow> None
      | Some cached \<Rightarrow>
          (case timestamp cached of
             None \<Rightarrow> None
           | Some t \<Rightarrow> if now - t < 24 * 60 * 60 * 1000 then Some (summary cached) else None))"

definition cleanupOldCache :: "int \<Rightarrow> storage \<Rightarrow> storage" where
  \<comment> \<open>a missing timestamp and the timestamp 0 are falsy\<close>
  "cleanupOldCache now st =
     (\<lambda>key. case st key of
        None \<Rightarrow> None
      | Some item \<Rightarrow>
          if startsWith key ''summary_'' \<and>
             (case timestamp item of
                None \<Rightarrow> False
              | Some t \<Rightarrow> t \<noteq> 0 \<and> t < now - 7 * 24 * 60 * 60 * 1000)
          then None else Some item)"

definition popupStore :: "string \<Rightarrow> string \<Rightarrow> storage \<Rightarrow> storage" where
  \<comment> \<open>the click handler: \<^verbatim>\<open>chrome.storage.local.set({ [cacheKey]: analysis })\<close>\<close>
  "popupStore tabUrl a st =
     st(cacheKey tabUrl \<mapsto> \<lparr> summary = a, timestamp = None, cached_url = None \<rparr>)"

definition popupCached :: "string \<Rightarrow> storage \<Rightarrow> cacheData option" where
  \<comment> \<open>what the popup displays when it opens on a detected page: the entry under its key\<close>
  "popupCached tabUrl st = st (cacheKey tabUrl)"

section \<open>Notions of the specification\<close>

text \<open>
  A text is normalized when its only white space is single spaces between other characters:
  every white-space character is a space, no two are adjacent, and none is at either end.
\<close>

fun singleSpaced :: "string \<Rightarrow> bool" where
  "singleSpaced [] = True"
| "singleSpaced [c] = (c = CHR '' '' \<or> \<not> isWhiteSpace c)"
| "singleSpaced (a # b # r) =
     ((if isWhiteSpace a then a = CHR '' '' \<and> \<not> isWhiteSpace b else True) \<and> singleSpaced (b # r))"

definition normalized :: "string \<Rightarrow> bool" where
  "normalized t = (singleSpaced t \<and> (t = [] \<or> (\<not> isWhiteSpace (hd t) \<and> \<not> isWhiteSpace (last t))))"

text \<open>
  A word occurs at a position, whatever the case of its letters, when the characters there
  and the word agree after case folding.
\<close>

definition occursAt :: "string \<Rightarrow> string \<Rightarrow> nat \<Rightarrow> bool" where
  "occursAt w s i =
     (i + length w \<le> length s \<and> map canonicalize (take (length w) (drop i s)) = map canonicalize w)"

definition keywordAt :: "string \<Rightarrow> nat \<Rightarrow> bool" where
  "keywordAt s i = list_ex (\<lambda>w. occursAt w s i) leadKeywords"

text \<open>
  A selector fails when it finds no element, or an element that does not pass the test of
  the loop.
\<close>

definition fails :: "(string \<Rightarrow> element option) \<Rightarrow> (element \<Rightarrow> bool) \<Rightarrow> string \<Rightarrow> bool" where
  "fails q ok sel = (case q sel of None \<Rightarrow> True | Some e \<Rightarrow> \<not> ok e)"

text \<open>
  The tokens of a text are its maximal runs of characters that are not white space.
\<close>

fun tokensFrom :: "string \<Rightarrow> string \<Rightarrow> string list" where
  "tokensFrom cur [] = (if cur = [] then [] else [cur])"
| "tokensFrom cur (c # cs) =
     (if isWhiteSpace c then (if cur = [] then tokensFrom [] cs else cur # tokensFrom [] cs)
      else tokensFrom (cur @ [c]) cs)"

definition wsTokens :: "string \<Rightarrow> string list" where
  "wsTokens s = tokensFrom [] s"

definition endsInSpace :: "string \<Rightarrow> bool" where
  "endsInSpace s = (s \<noteq> [] \<and> last s = CHR '' '')"

section \<open>Example documents\<close>

definition emptyDoc :: document where
  "emptyDoc =
     \<lparr> location_href = [], document_title = [], headingTexts = [],
       querySelector = (\<lambda>sel. None), body = \<lparr> innerText = [], textContent = [] \<rparr> \<rparr>"

definition legalDoc :: document where
  "legalDoc =
     \<lparr> location_href = ''https://Example.com/Legal'', document_title = [], headingTexts = [],
       querySelector = (\<lambda>sel. None), body = \<lparr> innerText = [], textContent = [] \<rparr> \<rparr>"

definition navDoc :: document where
  "navDoc =
     \<lparr> location_href = ''https://shop.example/info'', document_title = ''Info'',
       headingTexts = [],
       querySelector = (\<lambda>sel. None),
       body = \<lparr> innerText = ''Ok  Legal notice '', textContent = [] \<rparr> \<rparr>"

definition longDoc :: document where
  "longDoc =
     \<lparr> location_href = ''https://a.io/x'', document_title = ''x'', headingTexts = [],
       querySelector = (\<lambda>sel. None),
       body = \<lparr> innerText = replicate 9999 (CHR ''a'') @ '' b'', textContent = [] \<rparr> \<rparr>"

definition footer :: element where
  "footer = \<lparr> innerText = ''(c) Acme Legal'', textContent = ''(c) Acme Legal'' \<rparr>"

definition footerDoc :: document where
  "footerDoc =
     \<lparr> location_href = ''https://acme.example/about'', document_title = ''About Acme'',
       headingTexts = [''About''],
       querySelector = (\<lambda>sel. if sel = ''.legal'' \<or> sel = ''#main-content'' then Some footer else None),
       body = \<lparr> innerText = ''About Acme. We make anvils. (c) Acme Legal'',
                textContent = ''About Acme. We make anvils. (c) Acme Legal'' \<rparr> \<rparr>"

section \<open>The aggregate score\<close>

lemma sum_list_map_nonneg:
  "(\<And>x. x \<in> set xs \<Longrightarrow> (0::int) \<le> f x) \<Longrightarrow> 0 \<le> sum_list (map f xs)"
  by (induction xs) auto

lemma indicatorUrlScore_nonneg: "0 \<le> indicatorUrlScore u i"
  unfolding indicatorUrlScore_def by (rule sum_list_map_nonneg) simp

lemma urlScore_nonneg: "0 \<le> urlScore d"
  unfolding urlScore_def by (rule sum_list_map_nonneg) (rule indicatorUrlScore_nonneg)

lemma titleScore_nonneg: "0 \<le> titleScore d"
  unfolding titleScore_def by (rule sum_list_map_nonneg) simp

lemma headingScore_nonneg: "0 \<le> headingScore d"
  unfolding headingScore_def by (rule sum_list_map_nonneg) simp

lemma contentScoreOf_nonneg: "0 \<le> contentScoreOf txt"
  unfolding contentScoreOf_def
  by (intro add_nonneg_nonneg sum_list_map_nonneg) simp_all

lemma contentScore_nonneg: "0 \<le> contentScore d"
  unfolding contentScore_def by (rule contentScoreOf_nonneg)

text \<open>
  C1. For every document, the score of \<^verbatim>\<open>detectAndExtractTC\<close> is the sum of the url,
  title and heading scores and of the content score capped at 50, clamped to the range
  from 0 to 100; so it lies between 0 and 100, and it is the confidence that is returned.
  The code only takes the minimum with 100: the lower bound holds because no sub-score
  is negative.
\<close>

theorem totalScore_clamped_sum:
  "totalScore d =
     max 0 (min 100 (urlScore d + titleScore d + headingScore d + min (contentScore d) 50))
   \<and> 0 \<le> totalScore d \<and> totalScore d \<le> 100
   \<and> confidence (detectAndExtractTC d) = totalScore d"
proof -
  have "0 \<le> urlScore d + titleScore d + headingScore d + min (contentScore d) 50"
    using urlScore_nonneg [of d] titleScore_nonneg [of d] headingScore_nonneg [of d]
      contentScore_nonneg [of d] by simp
  then show ?thesis
    by (simp add: totalScore_def detectAndExtractTC_def)
qed

section \<open>The length caps\<close>

text \<open>
  C4. Whatever the size of the page, the text that \<^verbatim>\<open>detectAndExtractTC\<close> and
  \<^verbatim>\<open>analyzeTCContent\<close> return has at most 10,000 characters, and the text that
  \<^verbatim>\<open>extractTextContent\<close> prepares for the summarization request has at most 50,000.
\<close>

theorem extraction_length_capped:
  "length (text_tc (detectAndExtractTC d)) \<le> 10000
   \<and> length (content (analyzeTCContent d)) \<le> 10000
   \<and> length (extractTextContent d) \<le> 50000"
  by (simp add: detectAndExtractTC_def analyzeTCContent_def extractTextContent_def Let_def)

section \<open>Single-word indicators in the URL\<close>

lemma replaceWs_no_ws: "list_all (\<lambda>c. \<not> isWhiteSpace c) s \<Longrightarrow> replaceWs r s = s"
  by (induction s) auto

lemma member_le_sum_list_int:
  "x \<in> set xs \<Longrightarrow> (\<And>y. y \<in> set xs \<Longrightarrow> (0::int) \<le> f y) \<Longrightarrow> f x \<le> sum_list (map f xs)"
proof (induction xs)
  case Nil
  then show ?case by simp
next
  case (Cons a xs)
  have rest: "0 \<le> sum_list (map f xs)"
    by (rule sum_list_map_nonneg) (simp add: Cons.prems(2))
  show ?case
  proof (cases "x = a")
    case True
    with rest show ?thesis by simp
  next
    case False
    with Cons.prems have "x \<in> set xs" by simp
    then have "f x \<le> sum_list (map f xs)"
      by (rule Cons.IH) (simp add: Cons.prems(2))
    moreover have "0 \<le> f a" by (simp add: Cons.prems(2))
    ultimately show ?thesis by simp
  qed
qed

lemma no_ws_indicators:
  "indicator \<in> set tcIndicators \<Longrightarrow> list_all (\<lambda>c. \<not> isWhiteSpace c) indicator \<Longrightarrow>
   indicator \<in> {''legal'', ''eula'', ''disclaimer''}"
  unfolding tcIndicators_def
  by (elim set_ConsD [elim_format] disjE) (simp_all add: isWhiteSpace_def)

text \<open>
  C10. An indicator without white space is one of "legal", "eula" and "disclaimer"; its
  hyphenated, concatenated and underscored variants are all the indicator itself, so a URL
  whose lower-case form contains it gets 3 times 20 = 60 points from it, and the page is a
  match (the threshold is 25) whatever its title, headings and content.
\<close>

theorem single_word_indicator_url_match:
  assumes "indicator \<in> set tcIndicators"
    and "list_all (\<lambda>c. \<not> isWhiteSpace c) indicator"
    and "includes_str (toLowerCase (location_href d)) indicator"
  shows "indicator \<in> {''legal'', ''eula'', ''disclaimer''}
    \<and> variations indicator = [indicator, indicator, indicator]
    \<and> indicatorUrlScore (toLowerCase (location_href d)) indicator = 3 * 20
    \<and> 60 \<le> urlScore d
    \<and> 25 \<le> totalScore d
    \<and> isTC (detectAndExtractTC d)"
proof -
  have v: "variations indicator = [indicator, indicator, indicator]"
    using assms(2) by (simp add: variations_def replaceWs_no_ws)
  have s: "indicatorUrlScore (toLowerCase (location_href d)) indicator = 60"
    using assms(3) by (simp add: indicatorUrlScore_def v)
  have "indicatorUrlScore (toLowerCase (location_href d)) indicator \<le> urlScore d"
    unfolding urlScore_def
    by (rule member_le_sum_list_int [OF assms(1)]) (rule indicatorUrlScore_nonneg)
  with s have u: "60 \<le> urlScore d" by simp
  have "60 \<le> urlScore d + titleScore d + headingScore d + min (contentScore d) 50"
    using u titleScore_nonneg [of d] headingScore_nonneg [of d] contentScore_nonneg [of d]
    by simp
  then have t: "60 \<le> totalScore d" by (simp add: totalScore_def)
  from no_ws_indicators [OF assms(1,2)] v s u t show ?thesis
    by (simp add: detectAndExtractTC_def)
qed

lemma legalDoc_indicator: "''legal'' \<in> set tcIndicators" by (simp add: tcIndicators_def)
lemma legalDoc_no_ws: "list_all (\<lambda>c. \<not> isWhiteSpace c) ''legal''" by (simp add: isWhiteSpace_def)
lemma legalDoc_url: "includes_str (toLowerCase (location_href legalDoc)) ''legal''"
    by (simp add: legalDoc_def toLowerCase_def toLowerChar_def hasUpper_def)
lemma legalDoc_title: "titleScore legalDoc = 0"
    by (simp add: titleScore_def legalDoc_def tcIndicators_def toLowerCase_def)
lemma legalDoc_headings: "headingScore legalDoc = 0"
    by (simp add: headingScore_def headingsJoined_def legalDoc_def tcIndicators_def)
lemma legalDoc_element: "elementText (contentElement legalDoc) = []"
    by (simp add: contentElement_def contentSelectors_def legalDoc_def elementText_def)
lemma legalDoc_mainContent: "mainContent legalDoc = []"
    by (simp add: mainContent_def legalDoc_element normalize_def trim_def)
lemma contentScoreOf_Nil: "contentScoreOf [] = 0"
   by (simp add: contentScoreOf_def matchCount_def)
lemma legalDoc_content: "contentScore legalDoc = 0"
    by (simp add: contentScore_def legalDoc_mainContent contentScoreOf_Nil)
theorem single_word_indicator_url_match_witness:
  "''legal'' \<in> set tcIndicators
   \<and> list_all (\<lambda>c. \<not> isWhiteSpace c) ''legal''
   \<and> includes_str (toLowerCase (location_href legalDoc)) ''legal''
   \<and> variations ''legal'' = [''legal'', ''legal'', ''legal'']
   \<and> indicatorUrlScore (toLowerCase (location_href legalDoc)) ''legal'' = 60
   \<and> titleScore legalDoc = 0 \<and> headingScore legalDoc = 0 \<and> contentScore legalDoc = 0
   \<and> isTC (detectAndExtractTC legalDoc)"
  using single_word_indicator_url_match [OF legalDoc_indicator legalDoc_no_ws legalDoc_url]
    legalDoc_indicator legalDoc_no_ws legalDoc_url legalDoc_title legalDoc_headings
    legalDoc_content
  by simp

section \<open>The empty document\<close>

lemma findContainer_result:
  "findContainer q ok sels cur = Some e \<Longrightarrow> cur = Some e \<or> (\<exists>sel. q sel = Some e)"
  by (induction sels arbitrary: cur) (auto split: option.splits if_splits)

lemma urlScore_empty: "location_href d = [] \<Longrightarrow> urlScore d = 0"
  by (simp add: urlScore_def toLowerCase_def tcIndicators_def indicatorUrlScore_def
      variations_def isWhiteSpace_def)

lemma titleScore_empty: "document_title d = [] \<Longrightarrow> titleScore d = 0"
  by (simp add: titleScore_def toLowerCase_def tcIndicators_def)

lemma headingScore_empty: "headingTexts d = [] \<Longrightarrow> headingScore d = 0"
  by (simp add: headingScore_def headingsJoined_def tcIndicators_def)

lemma normalize_Nil: "normalize [] = []"
  by (simp add: normalize_def trim_def)

text \<open>
  C5. A document with an empty URL, an empty title, no headings, an empty body text and no
  text in any element a selector finds gets the score 0, is not a match, and has the
  empty text.
\<close>

theorem empty_document_scores_zero:
  assumes "location_href d = []" and "document_title d = []" and "headingTexts d = []"
    and "innerText (body d) = []" and "textContent (body d) = []"
    and "\<And>sel e. querySelector d sel = Some e \<Longrightarrow> innerText e = [] \<and> textContent e = []"
  shows "totalScore d = 0
    \<and> isTC (detectAndExtractTC d) = False
    \<and> confidence (detectAndExtractTC d) = 0
    \<and> text_tc (detectAndExtractTC d) = []"
proof -
  have "elementText (contentElement d) = []"
  proof (cases "findContainer (querySelector d) (\<lambda>e. 500 < length (trim (innerText e)))
      contentSelectors None")
    case None
    then show ?thesis
      by (simp add: contentElement_def elementText_def assms(4,5))
  next
    case (Some e)
    from findContainer_result [OF Some] obtain sel where "querySelector d sel = Some e"
      by auto
    from assms(6) [OF this] Some show ?thesis
      by (simp add: contentElement_def elementText_def)
  qed
  then have m: "mainContent d = []"
    by (simp add: mainContent_def normalize_Nil)
  then have "contentScore d = 0"
    by (simp add: contentScore_def contentScoreOf_Nil)
  then have "totalScore d = 0"
    by (simp add: totalScore_def urlScore_empty titleScore_empty headingScore_empty assms(1-3))
  with m show ?thesis
    by (simp add: detectAndExtractTC_def)
qed

theorem empty_document_scores_zero_witness:
  "totalScore emptyDoc = 0
   \<and> isTC (detectAndExtractTC emptyDoc) = False
   \<and> confidence (detectAndExtractTC emptyDoc) = 0
   \<and> text_tc (detectAndExtractTC emptyDoc) = []"
  by (rule empty_document_scores_zero) (simp_all add: emptyDoc_def)

section \<open>Normalized text\<close>

lemma isWhiteSpace_space [simp]: "isWhiteSpace (CHR '' '')"
  by (simp add: isWhiteSpace_def)

lemma singleSpaced_Cons_nonws:
  "\<not> isWhiteSpace c \<Longrightarrow> singleSpaced (c # t) = singleSpaced t"
  by (cases t) auto

lemma singleSpaced_Cons_space:
  "singleSpaced (CHR '' '' # t) = (singleSpaced t \<and> (t = [] \<or> \<not> isWhiteSpace (hd t)))"
  by (cases t) auto

lemma singleSpaced_tl: "singleSpaced (a # t) \<Longrightarrow> singleSpaced t"
  by (cases t) auto

lemma replaceWs_starts:
  "s = [] \<or> \<not> isWhiteSpace (hd s) \<Longrightarrow>
   replaceWs r s = [] \<or> \<not> isWhiteSpace (hd (replaceWs r s))"
  by (cases s) auto

lemma singleSpaced_replaceWs: "singleSpaced (replaceWs '' '' s)"
proof (induction "'' ''" s rule: replaceWs.induct)
  case 1
  show ?case by simp
next
  case (2 c cs)
  show ?case
  proof (cases "isWhiteSpace c")
    case True
    let ?rest = "dropWhile isWhiteSpace cs"
    have "?rest = [] \<or> \<not> isWhiteSpace (hd ?rest)"
      using hd_dropWhile [of isWhiteSpace cs] by blast
    then have "replaceWs '' '' ?rest = [] \<or> \<not> isWhiteSpace (hd (replaceWs '' '' ?rest))"
      by (rule replaceWs_starts)
    with 2(1) [OF True] True show ?thesis
      by (simp add: singleSpaced_Cons_space)
  next
    case False
    with 2(2) [OF False] show ?thesis
      by (simp add: singleSpaced_Cons_nonws)
  qed
qed

lemma replaceWs_singleSpaced: "singleSpaced t \<Longrightarrow> replaceWs '' '' t = t"
proof (induction t rule: singleSpaced.induct)
  case 1
  show ?case by simp
next
  case (2 c)
  then show ?case by auto
next
  case (3 a b r)
  then show ?case by (auto split: if_splits)
qed

lemma singleSpaced_drop: "singleSpaced t \<Longrightarrow> singleSpaced (drop n t)"
proof (induction n arbitrary: t)
  case 0
  then show ?case by simp
next
  case (Suc n)
  then show ?case by (cases t) (auto dest: singleSpaced_tl)
qed

lemma singleSpaced_take: "singleSpaced t \<Longrightarrow> singleSpaced (take n t)"
proof (induction t arbitrary: n rule: singleSpaced.induct)
  case 1
  show ?case by simp
next
  case (2 c)
  then show ?case by (cases n) auto
next
  case (3 a b r)
  show ?case
  proof (cases n)
    case 0
    then show ?thesis by simp
  next
    case (Suc m)
    from 3 have ih: "singleSpaced (take m (b # r))" by simp
    show ?thesis
    proof (cases m)
      case 0
      with Suc 3(2) show ?thesis by (auto split: if_splits)
    next
      case (Suc k)
      with \<open>n = Suc m\<close> ih 3(2) show ?thesis by (auto split: if_splits)
    qed
  qed
qed

lemma trim_take_drop:
  "trim s = (let v = dropWhile isWhiteSpace s in
             take (length v - length (takeWhile isWhiteSpace (rev v))) v)"
  by (simp add: trim_def Let_def dropWhile_eq_drop [of isWhiteSpace "rev _"] rev_drop)

lemma singleSpaced_trim: "singleSpaced t \<Longrightarrow> singleSpaced (trim t)"
  unfolding trim_take_drop Let_def dropWhile_eq_drop [of isWhiteSpace t]
  by (intro singleSpaced_take singleSpaced_drop)

lemma trim_ends:
  "trim u = [] \<or> (\<not> isWhiteSpace (hd (trim u)) \<and> \<not> isWhiteSpace (last (trim u)))"
proof (cases "trim u = []")
  case True
  then show ?thesis by simp
next
  case False
  let ?v = "dropWhile isWhiteSpace u"
  let ?w = "dropWhile isWhiteSpace (rev ?v)"
  have t: "trim u = rev ?w" by (simp add: trim_def)
  with False have w: "?w \<noteq> []" by simp
  then have v: "?v \<noteq> []" by (cases "?v") simp_all
  have "\<not> isWhiteSpace (hd ?w)" using w hd_dropWhile by blast
  then have l: "\<not> isWhiteSpace (last (trim u))"
    using w by (simp add: t last_rev)
  have "\<not> isWhiteSpace (hd ?v)" using v hd_dropWhile by blast
  moreover have "last ?w = last (rev ?v)"
    using w by (metis last_appendR takeWhile_dropWhile_id)
  ultimately have "\<not> isWhiteSpace (hd (trim u))"
    using w v by (simp add: t hd_rev last_rev)
  with l show ?thesis by simp
qed

lemma dropWhile_hd_keep: "xs \<noteq> [] \<Longrightarrow> \<not> P (hd xs) \<Longrightarrow> dropWhile P xs = xs"
  by (cases xs) auto

lemma trim_fixed:
  "t = [] \<or> (\<not> isWhiteSpace (hd t) \<and> \<not> isWhiteSpace (last t)) \<Longrightarrow> trim t = t"
proof (cases "t = []")
  case True
  then show ?thesis by (simp add: trim_def)
next
  case False
  assume "t = [] \<or> (\<not> isWhiteSpace (hd t) \<and> \<not> isWhiteSpace (last t))"
  with False have h: "\<not> isWhiteSpace (hd t)" and l: "\<not> isWhiteSpace (last t)" by auto
  have front: "dropWhile isWhiteSpace t = t"
    using False h by (rule dropWhile_hd_keep)
  have rear: "dropWhile isWhiteSpace (rev t) = rev t"
    using l False by (intro dropWhile_hd_keep) (simp_all only: hd_rev rev_is_Nil_conv not_False_eq_True)
  from front rear show ?thesis by (simp add: trim_def)
qed

lemma normalized_normalize: "normalized (normalize s)"
  unfolding normalized_def normalize_def
  using singleSpaced_trim [OF singleSpaced_replaceWs [of s]] trim_ends [of "replaceWs '' '' s"]
  by simp

lemma normalize_fixed: "normalized t \<Longrightarrow> normalize t = t"
  by (simp add: normalized_def normalize_def replaceWs_singleSpaced trim_fixed)

lemma normalize_idem: "normalize (normalize s) = normalize s"
  by (rule normalize_fixed) (rule normalized_normalize)

section \<open>The lead that extractTCContent removes\<close>

lemma startsWithCI_iff:
  "startsWithCI s p \<longleftrightarrow>
   length p \<le> length s \<and> map canonicalize (take (length p) s) = map canonicalize p"
  by (induction s p rule: startsWithCI.induct) auto

lemma startsWithCI_occursAt: "i \<le> length s \<Longrightarrow> startsWithCI (drop i s) w = occursAt w s i"
  by (auto simp: startsWithCI_iff occursAt_def)

lemma occursAt_bound: "occursAt w s i \<Longrightarrow> i \<le> length s"
  by (simp add: occursAt_def)

lemma matchAlts_None_iff: "matchAlts kws s = None \<longleftrightarrow> \<not> list_ex (startsWithCI s) kws"
  by (induction kws) auto

lemma matchAlts_Some_fits: "matchAlts kws s = Some n \<Longrightarrow> n \<le> length s"
  by (induction kws) (auto simp: startsWithCI_iff split: if_splits)

lemma matchAlts_Some_word:
  "matchAlts kws s = Some n \<Longrightarrow> \<exists>w \<in> set kws. startsWithCI s w \<and> n = length w"
  by (induction kws) (auto split: if_splits)

lemma lazyFind_Some:
  "lazyFind kws s = Some (k, n) \<Longrightarrow>
   k \<le> length s \<and> matchAlts kws (drop k s) = Some n \<and> (\<forall>i<k. matchAlts kws (drop i s) = None)"
proof (induction s arbitrary: k)
  case Nil
  then show ?case by (auto split: option.splits)
next
  case (Cons c cs)
  show ?case
  proof (cases "matchAlts kws (c # cs)")
    case (Some m)
    with Cons.prems show ?thesis by simp
  next
    case None
    with Cons.prems obtain k' where k: "k = Suc k'" and l: "lazyFind kws cs = Some (k', n)"
      by (auto split: if_splits option.splits)
    from Cons.IH [OF l] None show ?thesis
      by (auto simp: k less_Suc_eq_0_disj)
  qed
qed

lemma lazyFind_None:
  "lazyFind kws s = None \<Longrightarrow> list_all (\<lambda>c. \<not> isLineTerminator c) s \<Longrightarrow>
   i \<le> length s \<Longrightarrow> matchAlts kws (drop i s) = None"
proof (induction s arbitrary: i)
  case Nil
  then show ?case by (auto split: option.splits)
next
  case (Cons c cs)
  from Cons.prems(1) have here: "matchAlts kws (c # cs) = None"
    by (auto split: option.splits)
  with Cons.prems have rest: "lazyFind kws cs = None"
    by (auto split: option.splits)
  show ?case
  proof (cases i)
    case 0
    with here show ?thesis by simp
  next
    case (Suc j)
    with Cons.IH [OF rest, of j] Cons.prems show ?thesis by simp
  qed
qed

lemma stripLead_Some: "lazyFind leadKeywords s = Some (k, n) \<Longrightarrow> stripLead s = drop k s"
proof -
  assume l: "lazyFind leadKeywords s = Some (k, n)"
  from lazyFind_Some [OF l] have "n \<le> length (drop k s)"
    by (auto dest: matchAlts_Some_fits)
  then have "take n (drop k s) @ drop (k + n) s = drop k s"
    by (metis append_take_drop_id drop_drop add.commute)
  with l show ?thesis by (simp add: stripLead_def)
qed

lemma keywordAt_matchAlts:
  "i \<le> length s \<Longrightarrow> keywordAt s i \<longleftrightarrow> matchAlts leadKeywords (drop i s) \<noteq> None"
  by (simp add: keywordAt_def matchAlts_None_iff list_ex_iff startsWithCI_occursAt)

lemma keywordAt_bound: "keywordAt s i \<Longrightarrow> i \<le> length s"
  by (auto simp: keywordAt_def list_ex_iff dest: occursAt_bound)

lemma stripLead_first_keyword:
  assumes "keywordAt s k" and "\<And>i. i < k \<Longrightarrow> \<not> keywordAt s i"
    and "list_all (\<lambda>c. \<not> isLineTerminator c) s"
  shows "stripLead s = drop k s"
proof (cases "lazyFind leadKeywords s")
  case None
  have "k \<le> length s" using assms(1) by (rule keywordAt_bound)
  from lazyFind_None [OF None assms(3) this] assms(1) \<open>k \<le> length s\<close> show ?thesis
    by (simp add: keywordAt_matchAlts)
next
  case (Some p)
  then obtain k' n where l: "lazyFind leadKeywords s = Some (k', n)" by (cases p) simp
  note f = lazyFind_Some [OF l]
  from f have at: "keywordAt s k'" by (simp add: keywordAt_matchAlts)
  have "\<not> k' < k" using at assms(2) by blast
  moreover have "\<not> k < k'"
  proof
    assume "k < k'"
    with f have "matchAlts leadKeywords (drop k s) = None" by simp
    with assms(1) keywordAt_bound [OF assms(1)] show False
      by (simp add: keywordAt_matchAlts)
  qed
  ultimately have "k' = k" by simp
  with stripLead_Some [OF l] show ?thesis by simp
qed


lemma stripLead_no_keyword:
  assumes "\<And>i. \<not> keywordAt s i"
  shows "stripLead s = s"
proof (cases "lazyFind leadKeywords s")
  case None
  then show ?thesis by (simp add: stripLead_def)
next
  case (Some p)
  then obtain k n where l: "lazyFind leadKeywords s = Some (k, n)" by (cases p) simp
  from lazyFind_Some [OF l] have "keywordAt s k" by (simp add: keywordAt_matchAlts)
  with assms show ?thesis by blast
qed

lemma singleSpaced_chars:
  "singleSpaced t \<Longrightarrow> c \<in> set t \<Longrightarrow> isWhiteSpace c \<Longrightarrow> c = CHR '' ''"
  by (induction t rule: singleSpaced.induct) (auto split: if_splits)

lemma lineTerminator_ws: "isLineTerminator c \<Longrightarrow> isWhiteSpace c"
  by (auto simp: isLineTerminator_def isWhiteSpace_def)

lemma normalized_no_lineTerminator:
  assumes "normalized t" shows "list_all (\<lambda>c. \<not> isLineTerminator c) t"
proof -
  have "\<not> isLineTerminator c" if "c \<in> set t" for c
  proof
    assume lt: "isLineTerminator c"
    then have "c = CHR '' ''"
      using assms that by (auto simp: normalized_def dest: singleSpaced_chars lineTerminator_ws)
    with lt show False by (simp add: isLineTerminator_def)
  qed
  then show ?thesis by (simp add: list_all_iff)
qed

text \<open>
  C9. \<^verbatim>\<open>extractTCContent\<close> returns the normalized text of the container without the
  characters before the first position at which one of "terms", "privacy", "legal",
  "agreement" and "policy" occurs, whatever the case of its letters; when none of them
  occurs anywhere, it returns the normalized text as it is. The excerpt and the score of
  \<^verbatim>\<open>analyzeTCContent\<close> are computed from that result alone.
\<close>

theorem extractTCContent_drops_lead:
  "((\<forall>i. \<not> keywordAt (normalize (elementText (contentContainer d))) i) \<longrightarrow>
      extractTCContent d = normalize (elementText (contentContainer d)))
   \<and> (\<forall>k. keywordAt (normalize (elementText (contentContainer d))) k
          \<and> (\<forall>i<k. \<not> keywordAt (normalize (elementText (contentContainer d))) i) \<longrightarrow>
      extractTCContent d = drop k (normalize (elementText (contentContainer d))))
   \<and> content (analyzeTCContent d) = take 10000 (extractTCContent d)
   \<and> confidence_cs (analyzeTCContent d) = confidenceOf (scoreOf (extractTCContent d))"
proof -
  let ?t = "normalize (elementText (contentContainer d))"
  have nl: "list_all (\<lambda>c. \<not> isLineTerminator c) ?t"
    by (rule normalized_no_lineTerminator) (rule normalized_normalize)
  have a: "(\<forall>i. \<not> keywordAt ?t i) \<longrightarrow> extractTCContent d = ?t"
    by (simp add: extractTCContent_def stripLead_no_keyword)
  have b: "\<forall>k. keywordAt ?t k \<and> (\<forall>i<k. \<not> keywordAt ?t i) \<longrightarrow> extractTCContent d = drop k ?t"
    using nl by (simp add: extractTCContent_def stripLead_first_keyword)
  from a b show ?thesis
    by (simp add: analyzeTCContent_def Let_def)
qed

lemma navDoc_text: "normalize (elementText (contentContainer navDoc)) = ''Ok Legal notice''"
  by (simp add: contentContainer_def contentSelectorsCS_def navDoc_def elementText_def
      normalize_def trim_def isWhiteSpace_def)

lemma navDoc_keyword: "keywordAt ''Ok Legal notice'' 3"
  by (simp add: keywordAt_def leadKeywords_def occursAt_def canonicalize_def hasLower_def)

lemma navDoc_first: "\<forall>i<3. \<not> keywordAt ''Ok Legal notice'' i"
proof -
  have "\<not> keywordAt ''Ok Legal notice'' 0" "\<not> keywordAt ''Ok Legal notice'' 1"
    "\<not> keywordAt ''Ok Legal notice'' 2"
    by (simp_all add: keywordAt_def leadKeywords_def occursAt_def canonicalize_def hasLower_def)
  moreover have "i = 0 \<or> i = 1 \<or> i = 2" if "i < 3" for i :: nat
    using that by arith
  ultimately show ?thesis by blast
qed

theorem extractTCContent_drops_lead_witness:
  "normalize (elementText (contentContainer navDoc)) = ''Ok Legal notice''
   \<and> extractTCContent navDoc = ''Legal notice''
   \<and> extractTCContent emptyDoc = []"
proof -
  have e: "normalize (elementText (contentContainer emptyDoc)) = []"
    by (simp add: contentContainer_def contentSelectorsCS_def emptyDoc_def elementText_def
        normalize_def trim_def)
  have n: "\<forall>i. \<not> keywordAt [] i"
    by (simp add: keywordAt_def leadKeywords_def occursAt_def)
  from extractTCContent_drops_lead [of navDoc] navDoc_keyword navDoc_first
  have "extractTCContent navDoc = drop 3 ''Ok Legal notice''"
    unfolding navDoc_text by blast
  moreover from extractTCContent_drops_lead [of emptyDoc] n
  have "extractTCContent emptyDoc = []"
    unfolding e by blast
  ultimately show ?thesis by (simp add: navDoc_text)
qed

section \<open>Normalizing the extracted text again\<close>

lemma canonicalize_ws: "isWhiteSpace c \<Longrightarrow> canonicalize c = c"
  by (auto simp: isWhiteSpace_def canonicalize_def hasLower_def)

lemma keyword_head:
  assumes "w \<in> set leadKeywords" and "startsWithCI u w"
  shows "u \<noteq> [] \<and> \<not> isWhiteSpace (hd u)"
proof (cases u)
  case Nil
  with assms show ?thesis by (auto simp: leadKeywords_def)
next
  case (Cons c cs)
  have "\<not> isWhiteSpace c"
  proof
    assume ws: "isWhiteSpace c"
    from assms Cons have "canonicalize c \<in> {CHR ''T'', CHR ''P'', CHR ''L'', CHR ''A''}"
      by (auto simp: leadKeywords_def canonicalize_def [of "CHR ''t''"]
          canonicalize_def [of "CHR ''p''"] canonicalize_def [of "CHR ''l''"]
          canonicalize_def [of "CHR ''a''"] hasLower_def)
    with canonicalize_ws [OF ws] have "c \<in> {CHR ''T'', CHR ''P'', CHR ''L'', CHR ''A''}"
      by simp
    with ws show False by (auto simp: isWhiteSpace_def)
  qed
  with Cons show ?thesis by simp
qed

lemma normalized_stripLead:
  assumes "normalized t" shows "normalized (stripLead t)"
proof (cases "lazyFind leadKeywords t")
  case None
  with assms show ?thesis by (simp add: stripLead_def)
next
  case (Some p)
  then obtain k n where l: "lazyFind leadKeywords t = Some (k, n)" by (cases p) simp
  from lazyFind_Some [OF l] obtain w where w: "w \<in> set leadKeywords"
    and m: "startsWithCI (drop k t) w"
    by (auto dest: matchAlts_Some_word)
  from keyword_head [OF w m] have ne: "drop k t \<noteq> []" and h: "\<not> isWhiteSpace (hd (drop k t))"
    by simp_all
  from ne have "k < length t" by simp
  then have "last (drop k t) = last t" by (rule last_drop)
  moreover from ne have "t \<noteq> []" by auto
  ultimately have "\<not> isWhiteSpace (last (drop k t))"
    using assms by (simp add: normalized_def)
  with h assms show ?thesis
    by (simp add: stripLead_Some [OF l] normalized_def singleSpaced_drop)
qed

lemma normalized_mainContent: "normalized (mainContent d)"
  unfolding mainContent_def by (rule normalized_normalize)

lemma normalized_extractTCContent: "normalized (extractTCContent d)"
  unfolding extractTCContent_def by (rule normalized_stripLead) (rule normalized_normalize)

lemma singleSpaced_snoc:
  "singleSpaced (v @ [c]) \<Longrightarrow> isWhiteSpace c \<Longrightarrow> v \<noteq> [] \<Longrightarrow> \<not> isWhiteSpace (last v)"
proof (induction v rule: singleSpaced.induct)
  case 1
  then show ?case by simp
next
  case (2 a)
  then show ?case by (auto split: if_splits)
next
  case (3 a b r)
  then show ?case by (auto split: if_splits)
qed

lemma normalize_snoc_space:
  assumes "normalized v" and "v \<noteq> []" and "isWhiteSpace c" and "singleSpaced (v @ [c])"
  shows "normalize (v @ [c]) = v"
proof -
  from assms(1,2) have h: "\<not> isWhiteSpace (hd v)" and l: "\<not> isWhiteSpace (last v)"
    by (simp_all add: normalized_def)
  have "dropWhile isWhiteSpace (v @ [c]) = v @ [c]"
    using assms(2) h by (intro dropWhile_hd_keep) simp_all
  moreover have "dropWhile isWhiteSpace (rev v) = rev v"
    using assms(2) l by (intro dropWhile_hd_keep) (simp_all only: hd_rev rev_is_Nil_conv not_False_eq_True)
  ultimately have "trim (v @ [c]) = v"
    using assms(3) by (simp add: trim_def)
  then show ?thesis
    by (simp add: normalize_def replaceWs_singleSpaced [OF assms(4)])
qed

lemma normalize_take:
  assumes "normalized t"
  shows "normalize (take n t) = (if endsInSpace (take n t) then butlast (take n t) else take n t)"
proof (cases "take n t = []")
  case True
  show ?thesis unfolding True endsInSpace_def by (simp add: normalize_Nil)
next
  case False
  let ?u = "take n t"
  from False have tne: "t \<noteq> []" and npos: "0 < n" by auto
  from assms have ss: "singleSpaced ?u" by (simp add: normalized_def singleSpaced_take)
  from assms tne npos have h: "\<not> isWhiteSpace (hd ?u)"
    by (cases t) (auto simp: normalized_def take_Cons' split: if_splits)
  show ?thesis
  proof (cases "isWhiteSpace (last ?u)")
    case False
    with ss h have "normalized ?u" by (simp add: normalized_def)
    moreover from False have "\<not> endsInSpace ?u"
      by (auto simp: endsInSpace_def)
    ultimately show ?thesis by (simp add: normalize_fixed)
  next
    case True
    let ?v = "butlast ?u"
    from \<open>?u \<noteq> []\<close> have split: "?u = ?v @ [last ?u]" by simp
    from True ss \<open>?u \<noteq> []\<close> have sp: "last ?u = CHR '' ''"
      by (auto dest: singleSpaced_chars [where c = "last ?u"])
    then have e: "endsInSpace ?u" using \<open>?u \<noteq> []\<close> by (simp add: endsInSpace_def)
    have vne: "?v \<noteq> []"
    proof
      assume "?v = []"
      with split have "?u = [last ?u]" by simp
      then have "hd ?u = last ?u" by (metis list.sel(1))
      with h True show False by simp
    qed
    from ss split have ss': "singleSpaced (?v @ [last ?u])" by simp
    from singleSpaced_snoc [OF ss' True vne] have lv: "\<not> isWhiteSpace (last ?v)" .
    have "hd ?v = hd ?u" using vne split by (metis hd_append2)
    with h have hv: "\<not> isWhiteSpace (hd ?v)" by simp
    have "singleSpaced ?v"
      unfolding butlast_conv_take using ss by (rule singleSpaced_take)
    with hv lv have "normalized ?v" by (simp add: normalized_def)
    from normalize_snoc_space [OF this vne True ss'] split have "normalize ?u = ?v" by simp
    with e show ?thesis by simp
  qed
qed

text \<open>
  C7, as amended. Normalization is idempotent, and it leaves unchanged the text that
  extraction produces: \<^verbatim>\<open>mainContent\<close> in the popup and the result of
  \<^verbatim>\<open>extractTCContent\<close>. The excerpt that is returned after the cut at 10,000
  characters is left unchanged too, unless the cut leaves a space at its end: normalizing
  the excerpt then removes that one space.
\<close>

theorem normalization_idempotent:
  "normalize (normalize s) = normalize s
   \<and> normalize (mainContent d) = mainContent d
   \<and> normalize (extractTCContent d) = extractTCContent d
   \<and> normalize (text_tc (detectAndExtractTC d)) =
       (if endsInSpace (text_tc (detectAndExtractTC d))
        then butlast (text_tc (detectAndExtractTC d)) else text_tc (detectAndExtractTC d))
   \<and> normalize (content (analyzeTCContent d)) =
       (if endsInSpace (content (analyzeTCContent d))
        then butlast (content (analyzeTCContent d)) else content (analyzeTCContent d))"
  using normalize_take [OF normalized_mainContent, of 10000 d]
    normalize_take [OF normalized_extractTCContent, of 10000 d]
  by (simp add: normalize_idem normalize_fixed normalized_mainContent normalized_extractTCContent
      detectAndExtractTC_def analyzeTCContent_def Let_def)

lemma singleSpaced_replicate:
  "\<not> isWhiteSpace c \<Longrightarrow> singleSpaced t \<Longrightarrow> singleSpaced (replicate n c @ t)"
  by (induction n) (simp_all add: singleSpaced_Cons_nonws)

lemma longDoc_mainContent: "mainContent longDoc = replicate 9999 (CHR ''a'') @ '' b''"
proof -
  have a: "\<not> isWhiteSpace (CHR ''a'')" and b: "\<not> isWhiteSpace (CHR ''b'')"
    by (simp_all add: isWhiteSpace_def)
  have "singleSpaced '' b''" using b by simp
  with a have "singleSpaced (replicate 9999 (CHR ''a'') @ '' b'')"
    by (rule singleSpaced_replicate)
  with a b have "normalized (replicate 9999 (CHR ''a'') @ '' b'')"
    by (simp add: normalized_def hd_append)
  then have "normalize (replicate 9999 (CHR ''a'') @ '' b'') = replicate 9999 (CHR ''a'') @ '' b''"
    by (rule normalize_fixed)
  moreover have "elementText (contentElement longDoc) = replicate 9999 (CHR ''a'') @ '' b''"
    by (simp add: contentElement_def contentSelectors_def longDoc_def elementText_def)
  ultimately show ?thesis by (simp add: mainContent_def)
qed

lemma longDoc_text: "text_tc (detectAndExtractTC longDoc) = replicate 9999 (CHR ''a'') @ '' ''"
  by (simp add: detectAndExtractTC_def longDoc_mainContent)

text \<open>
  C7 as stated fails on the returned text: a page of 9,999 letters, a space and one more
  letter is cut after the space, and normalizing the excerpt removes it.
\<close>

theorem truncated_text_counterexample:
  "text_tc (detectAndExtractTC longDoc) = replicate 9999 (CHR ''a'') @ '' ''
   \<and> normalize (text_tc (detectAndExtractTC longDoc)) = replicate 9999 (CHR ''a'')
   \<and> normalize (text_tc (detectAndExtractTC longDoc)) \<noteq> text_tc (detectAndExtractTC longDoc)"
proof -
  have "endsInSpace (take 10000 (mainContent longDoc))"
    using longDoc_text by (simp add: detectAndExtractTC_def endsInSpace_def)
  with normalize_take [OF normalized_mainContent, of 10000 longDoc]
  have "normalize (text_tc (detectAndExtractTC longDoc)) = butlast (text_tc (detectAndExtractTC longDoc))"
    by (simp add: detectAndExtractTC_def)
  then have "normalize (text_tc (detectAndExtractTC longDoc)) = replicate 9999 (CHR ''a'')"
    by (simp add: longDoc_text butlast_append)
  with longDoc_text show ?thesis by simp
qed

section \<open>The word count\<close>

lemma tokensFrom_skip: "tokensFrom [] (dropWhile isWhiteSpace s) = tokensFrom [] s"
  by (induction s) auto

lemma splitWs_tokens:
  "s = [] \<or> \<not> isWhiteSpace (last s) \<Longrightarrow> cur \<noteq> [] \<or> (s \<noteq> [] \<and> \<not> isWhiteSpace (hd s)) \<Longrightarrow>
   splitWs cur s = tokensFrom cur s"
proof (induction cur s rule: splitWs.induct)
  case (1 cur)
  then show ?case by simp
next
  case (2 cur c cs)
  show ?case
  proof (cases "isWhiteSpace c")
    case True
    let ?r = "dropWhile isWhiteSpace cs"
    from True 2(4) have cur: "cur \<noteq> []" by simp
    from True 2(3) have cs: "cs \<noteq> []" and l: "\<not> isWhiteSpace (last cs)"
      by (auto split: if_splits)
    then have "last cs \<in> set cs" by simp
    with l have r: "?r \<noteq> []" by (auto simp: dropWhile_eq_Nil_conv)
    then have "last ?r = last cs"
      by (metis last_appendR takeWhile_dropWhile_id)
    with l have lr: "\<not> isWhiteSpace (last ?r)" by simp
    have hr: "\<not> isWhiteSpace (hd ?r)" using r hd_dropWhile by blast
    from 2(1) [OF True] lr hr r have "splitWs [] ?r = tokensFrom [] ?r" by simp
    with True cur show ?thesis by (simp add: tokensFrom_skip)
  next
    case False
    from 2(3) have "cs = [] \<or> \<not> isWhiteSpace (last cs)" by (auto split: if_splits)
    with 2(2) [OF False] False show ?thesis by simp
  qed
qed

text \<open>
  On a text that is not empty the count is right: the extracted text is normalized, so it
  neither starts nor ends with white space, and \<^verbatim>\<open>split(/\s+/)\<close> gives its tokens.
\<close>

lemma wordCount_nonempty_counts_tokens:
  "extractTCContent d \<noteq> [] \<Longrightarrow>
   wordCount (analyzeTCContent d) = length (wsTokens (extractTCContent d))"
proof -
  assume ne: "extractTCContent d \<noteq> []"
  with normalized_extractTCContent [of d]
  have "splitWs [] (extractTCContent d) = tokensFrom [] (extractTCContent d)"
    by (intro splitWs_tokens) (simp_all add: normalized_def)
  then show ?thesis by (simp add: analyzeTCContent_def Let_def wsTokens_def)
qed

lemma navDoc_extract: "extractTCContent navDoc = ''Legal notice''"
  by (simp add: extractTCContent_def navDoc_text stripLead_def leadKeywords_def
      canonicalize_def hasLower_def isLineTerminator_def)

lemma navDoc_wordCount:
  "wsTokens ''Legal notice'' = [''Legal'', ''notice'']
   \<and> wordCount (analyzeTCContent navDoc) = 2"
proof -
  have t: "wsTokens ''Legal notice'' = [''Legal'', ''notice'']"
    by (simp add: wsTokens_def isWhiteSpace_def)
  from wordCount_nonempty_counts_tokens [of navDoc] navDoc_extract t show ?thesis by simp
qed

lemma emptyDoc_extract: "extractTCContent emptyDoc = []"
  by (simp add: extractTCContent_def contentContainer_def contentSelectorsCS_def emptyDoc_def
      elementText_def normalize_Nil stripLead_def leadKeywords_def)

text \<open>
  C6 on the empty document. The extracted text is empty and has no token, so the word
  count should be 0; \<^verbatim>\<open>''.split(/\s+/)\<close> is the array of one empty string, and
  \<^verbatim>\<open>analyzeTCContent\<close> returns the word count 1.
\<close>

theorem wordCount_of_empty_text_is_one:
  "extractTCContent emptyDoc = []
   \<and> content (analyzeTCContent emptyDoc) = []
   \<and> wsTokens (extractTCContent emptyDoc) = []
   \<and> splitWs [] (extractTCContent emptyDoc) = [[]]
   \<and> wordCount (analyzeTCContent emptyDoc) = 1"
  by (simp add: analyzeTCContent_def Let_def emptyDoc_extract wsTokens_def)

section \<open>The container that is selected\<close>

text \<open>
  When a selector finds an element that passes the test and the selectors before it fail,
  that element is selected. When every selector fails, the loop ends with whatever the
  last selector found.
\<close>

lemma findContainer_first_qualifying:
  "list_all (fails q ok) pre \<Longrightarrow> q sel = Some e \<Longrightarrow> ok e \<Longrightarrow>
   findContainer q ok (pre @ sel # post) cur = Some e"
  by (induction pre arbitrary: cur) (auto simp: fails_def split: option.splits)

lemma findContainer_none_qualifies:
  "list_all (fails q ok) sels \<Longrightarrow>
   findContainer q ok sels cur = (if sels = [] then cur else q (last sels))"
  by (induction sels arbitrary: cur) (auto simp: fails_def split: option.splits)

lemma footer_short: "\<not> 500 < length (trim (innerText footer))"
  by (simp add: footer_def trim_def isWhiteSpace_def)

text \<open>
  C2 on a page where no selector finds an element with more than 500 characters of text,
  and the last selector of the list finds a short footer: the loop leaves that footer in
  its variable, so the body is not used, in popup.js and in content.js alike.
\<close>

theorem fallback_skipped_after_short_match:
  "list_all (fails (querySelector footerDoc) (\<lambda>e. 500 < length (trim (innerText e))))
     contentSelectors
   \<and> contentElement footerDoc = footer
   \<and> mainContent footerDoc = ''(c) Acme Legal''
   \<and> normalize (elementText (body footerDoc)) = ''About Acme. We make anvils. (c) Acme Legal''
   \<and> list_all (fails (querySelector footerDoc) (\<lambda>e. 500 < length (innerText e)))
     contentSelectorsCS
   \<and> contentContainer footerDoc = footer
   \<and> extractTCContent footerDoc = ''Legal''"
proof -
  have q: "list_all (fails (querySelector footerDoc) (\<lambda>e. 500 < length (trim (innerText e))))
      contentSelectors"
    using footer_short by (simp add: contentSelectors_def footerDoc_def fails_def)
  have e: "contentElement footerDoc = footer"
    using footer_short by (simp add: contentElement_def contentSelectors_def footerDoc_def)
  have n: "normalize ''(c) Acme Legal'' = ''(c) Acme Legal''"
    by (simp add: normalize_def trim_def isWhiteSpace_def)
  have m: "mainContent footerDoc = ''(c) Acme Legal''"
    by (simp add: mainContent_def e elementText_def footer_def n)
  have b: "normalize (elementText (body footerDoc)) = ''About Acme. We make anvils. (c) Acme Legal''"
    by (simp add: footerDoc_def elementText_def normalize_def trim_def isWhiteSpace_def)
  have r: "list_all (fails (querySelector footerDoc) (\<lambda>e. 500 < length (innerText e)))
      contentSelectorsCS"
    by (simp add: contentSelectorsCS_def footerDoc_def fails_def footer_def)
  have c: "contentContainer footerDoc = footer"
    by (simp add: contentContainer_def contentSelectorsCS_def footerDoc_def footer_def)
  have x: "extractTCContent footerDoc = ''Legal''"
    by (simp add: extractTCContent_def c elementText_def footer_def n stripLead_def
        leadKeywords_def canonicalize_def hasLower_def isLineTerminator_def)
  from q e m b r c x show ?thesis by simp
qed

section \<open>The scores of the two call sites\<close>

lemma pow2_pos: "0 < pow2 e"
  by (simp add: pow2_def)

lemma roundEven_nonneg: "0 \<le> m \<Longrightarrow> 0 \<le> roundEven m"
proof -
  assume "0 \<le> m"
  then have "0 \<le> \<lfloor>m\<rfloor>" by simp
  then show ?thesis by (simp add: roundEven_def Let_def)
qed

lemma nearestDouble_nonneg: "0 < q \<Longrightarrow> 0 \<le> nearestDouble q"
  by (simp add: nearestDouble_def Let_def pow2_pos roundEven_nonneg less_imp_le)

lemma toDouble_nonneg: "0 \<le> q \<Longrightarrow> 0 \<le> toDouble q"
  by (simp add: toDouble_def nearestDouble_nonneg)

lemma mathRound_nonneg: "0 \<le> x \<Longrightarrow> 0 \<le> mathRound x"
  by (simp add: mathRound_def)

lemma confidenceOf_bounds: "0 \<le> s \<Longrightarrow> 0 \<le> confidenceOf s \<and> confidenceOf s \<le> 100"
proof -
  assume "0 \<le> s"
  then have "0 \<le> toDouble (of_int s / 200)" by (intro toDouble_nonneg) simp
  then have "0 \<le> toDouble (toDouble (of_int s / 200) * 100)" by (intro toDouble_nonneg) simp
  then show ?thesis by (simp add: confidenceOf_def mathRound_nonneg)
qed

lemma scoreOf_nonneg: "0 \<le> scoreOf txt"
  by (simp add: scoreOf_def indicators_def)

lemma confidenceOf_0: "confidenceOf 0 = 0"
proof -
  have "\<lfloor>(1::rat) / 2\<rfloor> = 0" by (rule floor_unique) simp_all
  then show ?thesis by (simp add: confidenceOf_def toDouble_def mathRound_def)
qed

text \<open>
  C3, as amended. Each call site clamps a score of its own. The confidence of
  \<^verbatim>\<open>detectAndExtractTC\<close> is the sum of the url, title and heading scores and of the
  content score capped at 50, cut at 100. The confidence of \<^verbatim>\<open>analyzeTCContent\<close> is
  \<^verbatim>\<open>Math.round((score / 200) * 100)\<close> cut at 100, where the score comes from the weighted
  patterns in the extracted content alone. Both lie between 0 and 100.
\<close>

theorem each_site_clamps_its_own_score:
  "confidence (detectAndExtractTC d) =
     min 100 (urlScore d + titleScore d + headingScore d + min (contentScore d) 50)
   \<and> 0 \<le> confidence (detectAndExtractTC d) \<and> confidence (detectAndExtractTC d) \<le> 100
   \<and> confidence_cs (analyzeTCContent d) =
     min 100 (mathRound (toDouble (toDouble (of_int (scoreOf (extractTCContent d)) / 200) * 100)))
   \<and> 0 \<le> confidence_cs (analyzeTCContent d) \<and> confidence_cs (analyzeTCContent d) \<le> 100"
proof -
  have "0 \<le> urlScore d + titleScore d + headingScore d + min (contentScore d) 50"
    using urlScore_nonneg [of d] titleScore_nonneg [of d] headingScore_nonneg [of d]
      contentScore_nonneg [of d] by simp
  then have p: "0 \<le> totalScore d \<and> totalScore d \<le> 100" by (simp add: totalScore_def)
  have c: "confidence_cs (analyzeTCContent d) = confidenceOf (scoreOf (extractTCContent d))"
    by (simp add: analyzeTCContent_def Let_def)
  from confidenceOf_bounds [OF scoreOf_nonneg, of "extractTCContent d"] p c show ?thesis
    by (simp add: detectAndExtractTC_def totalScore_def confidenceOf_def)
qed

lemma legalDoc_href: "toLowerCase (location_href legalDoc) = ''https://example.com/legal''"
  by (simp add: legalDoc_def toLowerCase_def toLowerChar_def hasUpper_def)

lemma legalDoc_urlScore: "urlScore legalDoc = 60"
  unfolding urlScore_def legalDoc_href
  by (simp add: tcIndicators_def indicatorUrlScore_def variations_def isWhiteSpace_def)

lemma legalDoc_extract: "extractTCContent legalDoc = []"
  by (simp add: extractTCContent_def contentContainer_def contentSelectorsCS_def legalDoc_def
      elementText_def normalize_Nil stripLead_def leadKeywords_def)

lemma scoreOf_Nil: "scoreOf [] = 0"
  by (simp add: scoreOf_def indicators_def matchCount_def)

text \<open>
  C3 as stated fails on a page whose URL contains "legal" and which has no text: the
  popup reports 60 and a match, the content script 0 and no match.
\<close>

theorem call_sites_disagree_counterexample:
  "confidence (detectAndExtractTC legalDoc) = 60
   \<and> confidence_cs (analyzeTCContent legalDoc) = 0
   \<and> isTC (detectAndExtractTC legalDoc) = True
   \<and> isTC_cs (analyzeTCContent legalDoc) = False"
proof -
  have "totalScore legalDoc = 60"
    by (simp add: totalScore_def legalDoc_urlScore legalDoc_title legalDoc_headings
        legalDoc_content)
  then show ?thesis
    by (simp add: detectAndExtractTC_def analyzeTCContent_def Let_def legalDoc_extract
        scoreOf_Nil confidenceOf_0)
qed

section \<open>The age of a cached summary\<close>

text \<open>
  In background.js, \<^verbatim>\<open>getCachedSummary\<close> answers with a summary only when its entry is
  less than 24 hours old, and \<^verbatim>\<open>cleanupOldCache\<close> removes an entry only when its key
  starts with \<^verbatim>\<open>summary_\<close> and its timestamp is more than 7 days in the past. The
  popup's key has that prefix too.
\<close>

lemma startsWith_append: "startsWith (p @ s) p"
  by (induction p) auto

lemma cacheKey_prefix: "startsWith (cacheKey u) ''summary_''"
  unfolding cacheKey_def by (rule startsWith_append)

lemma getCachedSummary_fresh:
  "getCachedSummary now u st = Some s \<Longrightarrow>
   \<exists>c t. st (cacheKeyBG u) = Some c \<and> timestamp c = Some t \<and> now - t < 24 * 60 * 60 * 1000
     \<and> s = summary c"
  by (auto simp: getCachedSummary_def split: option.splits if_splits)

lemma getCachedSummary_expired:
  "st (cacheKeyBG u) = Some c \<Longrightarrow> timestamp c = Some t \<Longrightarrow> 24 * 60 * 60 * 1000 \<le> now - t \<Longrightarrow>
   getCachedSummary now u st = None"
  by (simp add: getCachedSummary_def)

lemma cleanupOldCache_removes_only_old:
  "st key = Some item \<Longrightarrow> cleanupOldCache now st key = None \<Longrightarrow>
   startsWith key ''summary_'' \<and> (\<exists>t. timestamp item = Some t \<and> t < now - 7 * 24 * 60 * 60 * 1000)"
  by (auto simp: cleanupOldCache_def split: option.splits if_splits)

lemma cleanupOldCache_keeps: "cleanupOldCache now st key = Some item \<Longrightarrow> st key = Some item"
  by (auto simp: cleanupOldCache_def split: option.splits if_splits)

text \<open>
  C8 on the popup's own read. The popup displays whatever entry is under its key, with
  or without a timestamp. It stores the analysis without a timestamp and never looks at
  the clock, and the cleanup keeps an entry that has no timestamp: what the popup stored
  is displayed whenever the popup opens on the page again, 48 hours later as well.
\<close>

theorem popup_serves_entry_of_any_age:
  "popupCached tabUrl (st(cacheKey tabUrl \<mapsto> entry)) = Some entry
   \<and> popupCached tabUrl (popupStore tabUrl a st) =
     Some \<lparr> summary = a, timestamp = None, cached_url = None \<rparr>
   \<and> popupCached tabUrl (cleanupOldCache now (popupStore tabUrl a st)) =
     Some \<lparr> summary = a, timestamp = None, cached_url = None \<rparr>
   \<and> cacheKey ''https://a.io/terms'' = ''summary_aHR0cHM6Ly9hLmlvL3Rlcm1z''
   \<and> popupCached ''https://a.io/terms''
       (cleanupOldCache (48 * 60 * 60 * 1000)
          (popupStore ''https://a.io/terms'' ''analysis'' Map.empty)) =
     Some \<lparr> summary = ''analysis'', timestamp = None, cached_url = None \<rparr>"
proof -
  have k: "cacheKey ''https://a.io/terms'' = ''summary_aHR0cHM6Ly9hLmlvL3Rlcm1z''"
    by (simp add: cacheKey_def b64_def base64Alphabet_def)
  have g: "popupCached u (cleanupOldCache t (popupStore u x s)) =
     Some \<lparr> summary = x, timestamp = None, cached_url = None \<rparr>" for u x s t
    by (simp add: popupCached_def popupStore_def cleanupOldCache_def)
  have r: "popupCached tabUrl (st(cacheKey tabUrl \<mapsto> entry)) = Some entry"
    by (simp add: popupCached_def)
  have "popupCached tabUrl (popupStore tabUrl a st) =
     Some \<lparr> summary = a, timestamp = None, cached_url = None \<rparr>"
    by (simp add: popupCached_def popupStore_def)
  with k g r show ?thesis by simp
qed

end
